theory Spec2Isabelle
  imports Complex_Main "HOL-Library.Multiset"
begin

section \<open>The Clarity decoder: \<open>packages/clarity-decode/src/clarity.ts\<close>\<close>

text \<open>
  A shallow embedding of \<open>decode\<close> and \<open>parseVersion\<close>. The functions the decoder
  imports from other modules (\<open>data.envelope\<close>, the five category decoders,
  \<open>layout.reset\<close>), the constant \<open>version\<close> of clarity-js, the numbering of the
  \<open>Data.Event\<close> enum, \<open>JSON.parse\<close> and \<open>Date.now()\<close> are parameters of the model.
\<close>

subsection \<open>JavaScript numbers and strings\<close>

text \<open>
  A JavaScript number is \<open>NaN\<close> or a finite value. Finite doubles are rationals, and on
  them \<open>a - b\<close>, \<open>Math.abs\<close>, \<open>>\<close> and \<open>!==\<close> have the sign and the truth value of the
  exact operations, so \<open>Num\<close> carries a rational. \<open>parseInt\<close> is exact on digit strings
  up to \<open>2^53\<close>; its rounding of longer digit strings to the nearest double, the
  infinities and the sign of zero are not modelled.
  A string is a list of 8-bit characters, one per UTF-16 code unit below 256.
\<close>

datatype jsnum = NaN | Num rat

fun js_sub :: "jsnum \<Rightarrow> jsnum \<Rightarrow> jsnum" where
  "js_sub (Num x) (Num y) = Num (x - y)"
| "js_sub _ _ = NaN"

fun js_abs :: "jsnum \<Rightarrow> jsnum" where
  "js_abs (Num x) = Num \<bar>x\<bar>"
| "js_abs NaN = NaN"

text \<open>\<open>x > y\<close>, \<open>x <= y\<close> and \<open>x !== y\<close>, \<open>x === y\<close> on numbers: every comparison
  with \<open>NaN\<close> is false, except \<open>!==\<close>, which is true.\<close>

fun js_gt :: "jsnum \<Rightarrow> jsnum \<Rightarrow> bool" where
  "js_gt (Num x) (Num y) = (x > y)"
| "js_gt _ _ = False"

fun js_le :: "jsnum \<Rightarrow> jsnum \<Rightarrow> bool" where
  "js_le (Num x) (Num y) = (x \<le> y)"
| "js_le _ _ = False"

fun js_eq :: "jsnum \<Rightarrow> jsnum \<Rightarrow> bool" where
  "js_eq (Num x) (Num y) = (x = y)"
| "js_eq _ _ = False"

definition js_neq :: "jsnum \<Rightarrow> jsnum \<Rightarrow> bool" where
  "js_neq x y = (\<not> js_eq x y)"

text \<open>
  \<open>s.split(sep)\<close> for a non-empty separator string: the pieces between the
  non-overlapping occurrences of \<open>sep\<close>, found from the left; a string without the
  separator (the empty string too) is one piece. \<open>acc\<close> holds the current piece.
  The decoder splits on \<open>"."\<close> and on \<open>"-b"\<close> only.
\<close>

function split_from :: "string \<Rightarrow> string \<Rightarrow> string \<Rightarrow> string list" where
  "split_from sep acc s =
     (if s = [] then [acc]
      else if sep \<noteq> [] \<and> take (length sep) s = sep
           then acc # split_from sep [] (drop (length sep) s)
      else split_from sep (acc @ [hd s]) (tl s))"
  by pat_completeness auto
termination
  by (relation "measure (\<lambda>(sep, acc, s). length s)") auto

definition split :: "string \<Rightarrow> string \<Rightarrow> string list" where
  "split s sep = split_from sep [] s"

text \<open>
  \<open>parseInt(s, 10)\<close>: leading white space is skipped, one sign is read, then the
  longest run of decimal digits; anything after it is ignored, and no digit at all
  gives \<open>NaN\<close>. With the radix given as 10 no \<open>0x\<close> prefix is recognised.
\<close>

definition is_space :: "char \<Rightarrow> bool" where
  "is_space c = (of_char c \<in> {9, 10, 11, 12, 13, 32, 160 :: nat})"

definition is_digit :: "char \<Rightarrow> bool" where
  "is_digit c = (48 \<le> (of_char c :: nat) \<and> (of_char c :: nat) \<le> 57)"

definition digits_value :: "string \<Rightarrow> nat" where
  "digits_value ds = foldl (\<lambda>n c. 10 * n + (of_char c - 48)) 0 ds"

definition parseInt :: "string \<Rightarrow> jsnum" where
  "parseInt s =
     (let t = dropWhile is_space s;
          neg = (t \<noteq> [] \<and> hd t = CHR ''-'');
          u = (if t \<noteq> [] \<and> (hd t = CHR ''-'' \<or> hd t = CHR ''+'') then tl t else t);
          ds = takeWhile is_digit u
      in if ds = [] then NaN
         else Num (if neg then - of_nat (digits_value ds) else of_nat (digits_value ds)))"

subsection \<open>\<open>parseVersion\<close>\<close>

record DecodedVersion =
  major :: jsnum
  minor :: jsnum
  patch :: jsnum
  beta :: jsnum

definition parseVersion :: "string \<Rightarrow> DecodedVersion" where
  "parseVersion ver =
     (let output = \<lparr>major = Num 0, minor = Num 0, patch = Num 0, beta = Num 0\<rparr>;
          parts = split ver ''.''
      in if length parts = 3
         then (let subparts = split (parts ! 2) ''-b'';
                   output = output\<lparr>major := parseInt (parts ! 0)\<rparr>;
                   output = output\<lparr>minor := parseInt (parts ! 1)\<rparr>
               in if length subparts = 2
                  then output\<lparr>patch := parseInt (subparts ! 0),
                              beta := parseInt (subparts ! 1)\<rparr>
                  else output\<lparr>patch := parseInt (parts ! 2)\<rparr>)
         else output)"

subsection \<open>Tokens, the wire payload and the envelope\<close>

text \<open>
  \<open>Token = string | number | number[] | string[]\<close>; an encoded event is a \<open>Token[]\<close>
  whose element 0 is the time and element 1 the event code.
\<close>

datatype token = TString string | TNumber jsnum | TNumbers "jsnum list" | TStrings "string list"

type_synonym entry = "token list"

text \<open>
  Modelled from the spec: the \<open>Payload\<close> that \<open>decode\<close> reads, with the envelope
  \<open>e\<close>, the events \<open>a\<close> and the optional events \<open>p\<close> (fields \<open>json_e\<close>, \<open>json_a\<close>,
  \<open>json_p\<close>). The declaration in \<open>types/data.d.ts\<close> is of another version (\<open>e\<close> and
  \<open>d\<close>), and the declaration that \<open>decode\<close> is written against is missing.
\<close>

record Payload =
  json_e :: entry
  json_a :: "entry list"
  json_p :: "entry list option"

datatype UploadMode = Async | Beacon

datatype BooleanFlag = False_flag | True_flag

record Envelope =
  projectId :: jsnum
  userId :: jsnum
  sessionId :: jsnum
  pageId :: jsnum
  sequence :: jsnum
  start :: jsnum
  duration :: jsnum
  version :: string
  upload :: UploadMode
  end_flag :: BooleanFlag

text \<open>The members of \<open>Data.Event\<close> that \<open>decode\<close> has a case for, in the order of the
  \<open>switch\<close>. The two declarations of the enum among the sources lack five of them
  and differ in their numbers, so the numbers are a parameter (\<open>event_code\<close> below).\<close>

datatype Event =
    Baseline | Ping | Limit | Upgrade | Metric | Dimension | Summary | Custom
  | Variable | Upload
  | MouseDown | MouseUp | MouseMove | MouseWheel | DoubleClick
  | TouchStart | TouchCancel | TouchEnd | TouchMove
  | Click | Scroll | Resize | Selection | Timeline | Input | Unload | Visibility
  | Box | Region | Discover | Mutation | Document
  | ScriptError | ImageError | Log
  | Connection | Navigation

definition cases :: "Event list" where
  "cases =
     [Baseline, Ping, Limit, Upgrade, Metric, Dimension, Summary, Custom, Variable, Upload,
      MouseDown, MouseUp, MouseMove, MouseWheel, DoubleClick,
      TouchStart, TouchCancel, TouchEnd, TouchMove,
      Click, Scroll, Resize, Selection, Timeline, Input, Unload, Visibility,
      Box, Region, Discover, Mutation, Document,
      ScriptError, ImageError, Log, Connection, Navigation]"

text \<open>\<open>Data.Metric.TotalBytes = 2\<close>; \<open>MetricData\<close> is \<open>{ [key: number]: number }\<close>.\<close>

definition TotalBytes :: nat where
  "TotalBytes = 2"

type_synonym MetricData = "nat \<Rightarrow> jsnum option"

subsection \<open>The decoded payload\<close>

text \<open>
  Modelled from the spec: \<open>DecodedPayload\<close> and \<open>MetricEvent\<close>, whose declarations
  (\<open>types/data\<close> of clarity-decode) are missing. The payload has the time of the call,
  the envelope and one optional field per category, named as \<open>decode\<close> names them: a
  field that is \<open>undefined\<close> is \<open>None\<close> in \<open>buckets\<close>. A metric event has the \<open>data\<close>
  object that \<open>decode\<close> writes to; what else a decoded event holds is left to the
  decoders (type \<open>'d\<close>).
\<close>

datatype bucket =
    baseline_bucket | ping_bucket | limit_bucket | upgrade_bucket | metric_bucket
  | dimension_bucket | summary_bucket | custom_bucket | variable_bucket | upload_bucket
  | pointer_bucket | click_bucket | scroll_bucket | resize_bucket | selection_bucket
  | timeline_bucket | input_bucket | unload_bucket | visibility_bucket
  | box_bucket | region_bucket | dom_bucket | doc_bucket
  | script_bucket | image_bucket | log_bucket
  | connection_bucket | navigation_bucket

record 'd MetricEvent =
  partial :: 'd
  data :: MetricData

datatype 'd decoded = MetricEv "'d MetricEvent" | Ev 'd

record 'd DecodedPayload =
  timestamp :: jsnum
  envelope :: Envelope
  buckets :: "bucket \<Rightarrow> 'd decoded list option"

subsection \<open>What \<open>decode\<close> imports\<close>

text \<open>
  \<open>clarity_version\<close> is the \<open>version\<close> constant of clarity-js and \<open>event_code\<close> the
  numbering of \<open>Data.Event\<close>. \<open>JSON_parse\<close> gives \<open>None\<close> where \<open>JSON.parse\<close> throws.
  The decoders are total functions of the entry; \<open>data_decode_metric\<close> is
  \<open>data.decode(entry) as MetricEvent\<close>. The layout decoder keeps state between its
  calls: \<open>layout_reset\<close> is the state that \<open>layout.reset()\<close> leaves, and
  \<open>layout_decode\<close> returns the decoded event with the next state.
\<close>

record ('d, 'l) env =
  clarity_version :: string
  event_code :: "Event \<Rightarrow> int"
  JSON_parse :: "string \<Rightarrow> Payload option"
  data_envelope :: "entry \<Rightarrow> Envelope"
  data_decode :: "entry \<Rightarrow> 'd"
  data_decode_metric :: "entry \<Rightarrow> 'd MetricEvent"
  interaction_decode :: "entry \<Rightarrow> 'd"
  layout_reset :: 'l
  layout_decode :: "'l \<Rightarrow> entry \<Rightarrow> 'd \<times> 'l"
  diagnostic_decode :: "entry \<Rightarrow> 'd"
  performance_decode :: "entry \<Rightarrow> 'd"

text \<open>What a run of \<open>decode\<close> has built and done so far: the payload, the state of the
  layout decoder, and the entries written with \<open>console.error\<close>, each as
  \<open>No handler for Event: \<close> followed by the JSON text of the entry.\<close>

record ('d, 'l) state =
  payload :: "'d DecodedPayload"
  layout :: 'l
  console :: "entry list"

datatype error = SyntaxError | Error string

subsection \<open>Merging the two channels\<close>

text \<open>
  \<open>Array.prototype.sort\<close> with a comparison function: \<open>x\<close> goes behind \<open>y\<close> when
  \<open>cmp(x, y) > 0\<close>, and the sort is stable (ECMAScript 2019), which an insertion sort
  from the right is. The comparison function of \<open>decode\<close> is \<open>by_time\<close>; an element 0
  that is not a number (which \<open>a[0] as number\<close> rules out) counts as \<open>NaN\<close>.
  JavaScript would convert such an element to a number, and where a comparison is
  \<open>NaN\<close> the order is the engine's own; the order of the sorted sequence is stated
  below for entries that begin with a number.
\<close>

fun insert_by :: "('a \<Rightarrow> 'a \<Rightarrow> jsnum) \<Rightarrow> 'a \<Rightarrow> 'a list \<Rightarrow> 'a list" where
  "insert_by cmp x [] = [x]"
| "insert_by cmp x (y # ys) =
     (if js_gt (cmp x y) (Num 0) then y # insert_by cmp x ys else x # y # ys)"

definition array_sort :: "('a \<Rightarrow> 'a \<Rightarrow> jsnum) \<Rightarrow> 'a list \<Rightarrow> 'a list" where
  "array_sort cmp xs = foldr (insert_by cmp) xs []"

definition time_of :: "entry \<Rightarrow> jsnum" where
  "time_of x = (case x of TNumber n # _ \<Rightarrow> n | _ \<Rightarrow> NaN)"

definition by_time :: "entry \<Rightarrow> entry \<Rightarrow> jsnum" where
  "by_time x y = js_sub (time_of x) (time_of y)"

definition encoded :: "Payload \<Rightarrow> entry list" where
  "encoded json =
     array_sort by_time
       (case json_p json of Some p \<Rightarrow> json_a json @ p | None \<Rightarrow> json_a json)"

subsection \<open>The version check\<close>

text \<open>The condition of the \<open>if\<close> that throws, and the message of the error.\<close>

definition version_mismatch :: "DecodedVersion \<Rightarrow> DecodedVersion \<Rightarrow> bool" where
  "version_mismatch jsonVersion codeVersion =
     (js_neq (major jsonVersion) (major codeVersion) \<or>
      js_neq (minor jsonVersion) (minor codeVersion) \<or>
      js_gt (js_abs (js_sub (patch jsonVersion) (patch codeVersion))) (Num 1))"

definition substr :: "string \<Rightarrow> nat \<Rightarrow> nat \<Rightarrow> string" where
  "substr s i n = take n (drop i s)"

definition mismatch_message :: "string \<Rightarrow> string \<Rightarrow> string \<Rightarrow> string" where
  "mismatch_message actual expected input =
     ''Invalid version. Actual: '' @ actual @ '' | Expected: '' @ expected @
     '' (+/- 1) | '' @ substr input 0 250"

subsection \<open>The dispatcher\<close>

text \<open>\<open>if (payload.b === undefined) { payload.b = []; }\<close> followed by
  \<open>payload.b.push(v)\<close>.\<close>

definition push :: "bucket \<Rightarrow> 'd decoded \<Rightarrow> ('d, 'l) state \<Rightarrow> ('d, 'l) state" where
  "push b v s =
     s\<lparr>payload := (payload s)\<lparr>buckets := (buckets (payload s))
        (b \<mapsto> (case buckets (payload s) b of None \<Rightarrow> [] | Some vs \<Rightarrow> vs) @ [v])\<rparr>\<rparr>"

definition push_layout :: "('d, 'l) env \<Rightarrow> bucket \<Rightarrow> entry \<Rightarrow> ('d, 'l) state \<Rightarrow> ('d, 'l) state" where
  "push_layout c b entry s =
     (case layout_decode c (layout s) entry of (v, l) \<Rightarrow> push b (Ev v) (s\<lparr>layout := l\<rparr>))"

text \<open>The body of each \<open>case\<close> of the \<open>switch\<close>; \<open>n\<close> is \<open>input.length\<close>.\<close>

fun handle :: "('d, 'l) env \<Rightarrow> nat \<Rightarrow> Event \<Rightarrow> entry \<Rightarrow> ('d, 'l) state \<Rightarrow> ('d, 'l) state" where
  "handle c n Baseline entry s = push baseline_bucket (Ev (data_decode c entry)) s"
| "handle c n Ping entry s = push ping_bucket (Ev (data_decode c entry)) s"
| "handle c n Limit entry s = push limit_bucket (Ev (data_decode c entry)) s"
| "handle c n Upgrade entry s = push upgrade_bucket (Ev (data_decode c entry)) s"
| "handle c n Metric entry s =
     (let metric = data_decode_metric c entry;
          metric = metric\<lparr>data := (data metric)(TotalBytes \<mapsto> Num (of_nat n))\<rparr>
      in push metric_bucket (MetricEv metric) s)"
| "handle c n Dimension entry s = push dimension_bucket (Ev (data_decode c entry)) s"
| "handle c n Summary entry s = push summary_bucket (Ev (data_decode c entry)) s"
| "handle c n Custom entry s = push custom_bucket (Ev (data_decode c entry)) s"
| "handle c n Variable entry s = push variable_bucket (Ev (data_decode c entry)) s"
| "handle c n Upload entry s = push upload_bucket (Ev (data_decode c entry)) s"
| "handle c n MouseDown entry s = push pointer_bucket (Ev (interaction_decode c entry)) s"
| "handle c n MouseUp entry s = push pointer_bucket (Ev (interaction_decode c entry)) s"
| "handle c n MouseMove entry s = push pointer_bucket (Ev (interaction_decode c entry)) s"
| "handle c n MouseWheel entry s = push pointer_bucket (Ev (interaction_decode c entry)) s"
| "handle c n DoubleClick entry s = push pointer_bucket (Ev (interaction_decode c entry)) s"
| "handle c n TouchStart entry s = push pointer_bucket (Ev (interaction_decode c entry)) s"
| "handle c n TouchCancel entry s = push pointer_bucket (Ev (interaction_decode c entry)) s"
| "handle c n TouchEnd entry s = push pointer_bucket (Ev (interaction_decode c entry)) s"
| "handle c n TouchMove entry s = push pointer_bucket (Ev (interaction_decode c entry)) s"
| "handle c n Click entry s = push click_bucket (Ev (interaction_decode c entry)) s"
| "handle c n Scroll entry s = push scroll_bucket (Ev (interaction_decode c entry)) s"
| "handle c n Resize entry s = push resize_bucket (Ev (interaction_decode c entry)) s"
| "handle c n Selection entry s = push selection_bucket (Ev (interaction_decode c entry)) s"
| "handle c n Timeline entry s = push timeline_bucket (Ev (interaction_decode c entry)) s"
| "handle c n Input entry s = push input_bucket (Ev (interaction_decode c entry)) s"
| "handle c n Unload entry s = push unload_bucket (Ev (interaction_decode c entry)) s"
| "handle c n Visibility entry s = push visibility_bucket (Ev (interaction_decode c entry)) s"
| "handle c n Box entry s = push_layout c box_bucket entry s"
| "handle c n Region entry s = push_layout c region_bucket entry s"
| "handle c n Discover entry s = push_layout c dom_bucket entry s"
| "handle c n Mutation entry s = push_layout c dom_bucket entry s"
| "handle c n Document entry s = push_layout c doc_bucket entry s"
| "handle c n ScriptError entry s = push script_bucket (Ev (diagnostic_decode c entry)) s"
| "handle c n ImageError entry s = push image_bucket (Ev (diagnostic_decode c entry)) s"
| "handle c n Log entry s = push log_bucket (Ev (diagnostic_decode c entry)) s"
| "handle c n Connection entry s = push connection_bucket (Ev (performance_decode c entry)) s"
| "handle c n Navigation entry s = push navigation_bucket (Ev (performance_decode c entry)) s"

text \<open>
  \<open>switch (entry[1])\<close> takes the first \<open>case\<close> whose label is strictly equal to
  \<open>entry[1]\<close>: a number equal to the label. An entry with no element 1, or one that is
  not a number, reaches \<open>default\<close>, which writes the entry to the console.
\<close>

definition is_case :: "('d, 'l) env \<Rightarrow> entry \<Rightarrow> Event \<Rightarrow> bool" where
  "is_case c entry ev =
     (1 < length entry \<and> entry ! 1 = TNumber (Num (of_int (event_code c ev))))"

definition switch :: "('d, 'l) env \<Rightarrow> entry \<Rightarrow> Event option" where
  "switch c entry = find (is_case c entry) cases"

definition step :: "('d, 'l) env \<Rightarrow> nat \<Rightarrow> ('d, 'l) state \<Rightarrow> entry \<Rightarrow> ('d, 'l) state" where
  "step c n s entry =
     (case switch c entry of
        Some ev \<Rightarrow> handle c n ev entry s
      | None \<Rightarrow> s\<lparr>console := console s @ [entry]\<rparr>)"

subsection \<open>\<open>decode\<close>\<close>

text \<open>\<open>now\<close> is the value of \<open>Date.now()\<close>. The result is the error thrown, or the
  payload returned together with the layout state and the console output.\<close>

definition decode :: "('d, 'l) env \<Rightarrow> jsnum \<Rightarrow> string \<Rightarrow> error + ('d, 'l) state" where
  "decode c now input =
     (case JSON_parse c input of
        None \<Rightarrow> Inl SyntaxError
      | Some json \<Rightarrow>
          (let envelope = data_envelope c (json_e json);
               payload = \<lparr>timestamp = now, envelope = envelope, buckets = Map.empty\<rparr>;
               encoded = encoded json;
               jsonVersion = parseVersion (version (DecodedPayload.envelope payload));
               codeVersion = parseVersion (clarity_version c)
           in if version_mismatch jsonVersion codeVersion
              then Inl (Error (mismatch_message (version (DecodedPayload.envelope payload))
                                 (clarity_version c) input))
              else Inr (foldl (step c (length input))
                          \<lparr>payload = payload, layout = layout_reset c, console = []\<rparr>
                          encoded)))"

section \<open>Definitions used to state the properties\<close>

subsection \<open>Versions\<close>

text \<open>\<open>parseVersion\<close> as the specification words it: three parts or the zero version;
  the third part split on \<open>-b\<close>; two pieces are patch and beta, anything else is the
  patch alone.\<close>

definition parseVersion_spec :: "string \<Rightarrow> DecodedVersion" where
  "parseVersion_spec s =
     (case split s ''.'' of
        [ma, mi, third] \<Rightarrow>
          (case split third ''-b'' of
             [pa, be] \<Rightarrow> \<lparr>major = parseInt ma, minor = parseInt mi,
                          patch = parseInt pa, beta = parseInt be\<rparr>
           | _ \<Rightarrow> \<lparr>major = parseInt ma, minor = parseInt mi,
                    patch = parseInt third, beta = Num 0\<rparr>)
      | _ \<Rightarrow> \<lparr>major = Num 0, minor = Num 0, patch = Num 0, beta = Num 0\<rparr>)"

text \<open>The compatibility rule as the specification words it:
  \<open>incoming.major == running.major && incoming.minor == running.minor &&
  abs(incoming.patch - running.patch) <= 1\<close>.\<close>

definition isCompatible_spec :: "DecodedVersion \<Rightarrow> DecodedVersion \<Rightarrow> bool" where
  "isCompatible_spec incoming running =
     (js_eq (major incoming) (major running) \<and> js_eq (minor incoming) (minor running) \<and>
      js_le (js_abs (js_sub (patch incoming) (patch running))) (Num 1))"

subsection \<open>Times\<close>

text \<open>An entry whose element 0 is a number, and that number as a sorting key.\<close>

definition has_time :: "entry \<Rightarrow> bool" where
  "has_time x = (time_of x \<noteq> NaN)"

definition time_key :: "entry \<Rightarrow> rat" where
  "time_key x = (case time_of x of Num r \<Rightarrow> r | NaN \<Rightarrow> 0)"

subsection \<open>The \<open>switch\<close> as a table\<close>

text \<open>The field each \<open>case\<close> writes, the cases by the decoder they call, and the event
  a case pushes together with the layout state it leaves.\<close>

fun bucket_of :: "Event \<Rightarrow> bucket" where
  "bucket_of Baseline = baseline_bucket"
| "bucket_of Ping = ping_bucket"
| "bucket_of Limit = limit_bucket"
| "bucket_of Upgrade = upgrade_bucket"
| "bucket_of Metric = metric_bucket"
| "bucket_of Dimension = dimension_bucket"
| "bucket_of Summary = summary_bucket"
| "bucket_of Custom = custom_bucket"
| "bucket_of Variable = variable_bucket"
| "bucket_of Upload = upload_bucket"
| "bucket_of MouseDown = pointer_bucket"
| "bucket_of MouseUp = pointer_bucket"
| "bucket_of MouseMove = pointer_bucket"
| "bucket_of MouseWheel = pointer_bucket"
| "bucket_of DoubleClick = pointer_bucket"
| "bucket_of TouchStart = pointer_bucket"
| "bucket_of TouchCancel = pointer_bucket"
| "bucket_of TouchEnd = pointer_bucket"
| "bucket_of TouchMove = pointer_bucket"
| "bucket_of Click = click_bucket"
| "bucket_of Scroll = scroll_bucket"
| "bucket_of Resize = resize_bucket"
| "bucket_of Selection = selection_bucket"
| "bucket_of Timeline = timeline_bucket"
| "bucket_of Input = input_bucket"
| "bucket_of Unload = unload_bucket"
| "bucket_of Visibility = visibility_bucket"
| "bucket_of Box = box_bucket"
| "bucket_of Region = region_bucket"
| "bucket_of Discover = dom_bucket"
| "bucket_of Mutation = dom_bucket"
| "bucket_of Document = doc_bucket"
| "bucket_of ScriptError = script_bucket"
| "bucket_of ImageError = image_bucket"
| "bucket_of Log = log_bucket"
| "bucket_of Connection = connection_bucket"
| "bucket_of Navigation = navigation_bucket"

definition data_cases :: "Event list" where
  "data_cases = [Baseline, Ping, Limit, Upgrade, Dimension, Summary, Custom, Variable, Upload]"

definition pointer_cases :: "Event list" where
  "pointer_cases =
     [MouseDown, MouseUp, MouseMove, MouseWheel, DoubleClick,
      TouchStart, TouchCancel, TouchEnd, TouchMove]"

definition interaction_cases :: "Event list" where
  "interaction_cases =
     pointer_cases @ [Click, Scroll, Resize, Selection, Timeline, Input, Unload, Visibility]"

definition layout_cases :: "Event list" where
  "layout_cases = [Box, Region, Discover, Mutation, Document]"

definition diagnostic_cases :: "Event list" where
  "diagnostic_cases = [ScriptError, ImageError, Log]"

definition produce ::
  "('d, 'l) env \<Rightarrow> nat \<Rightarrow> 'l \<Rightarrow> Event \<Rightarrow> entry \<Rightarrow> 'd decoded \<times> 'l" where
  "produce c n l ev x =
     (if ev = Metric
      then (MetricEv ((data_decode_metric c x)
              \<lparr>data := (data (data_decode_metric c x))(TotalBytes \<mapsto> Num (of_nat n))\<rparr>), l)
      else if ev \<in> set layout_cases
      then (Ev (fst (layout_decode c l x)), snd (layout_decode c l x))
      else if ev \<in> set data_cases then (Ev (data_decode c x), l)
      else if ev \<in> set interaction_cases then (Ev (interaction_decode c x), l)
      else if ev \<in> set diagnostic_cases then (Ev (diagnostic_decode c x), l)
      else (Ev (performance_decode c x), l))"

text \<open>The events that a run over \<open>xs\<close> pushes, each with its field, in the order of
  \<open>xs\<close>; \<open>l\<close> is the layout state before the run.\<close>

fun emitted ::
  "('d, 'l) env \<Rightarrow> nat \<Rightarrow> 'l \<Rightarrow> entry list \<Rightarrow> (bucket \<times> 'd decoded) list" where
  "emitted c n l [] = []"
| "emitted c n l (x # xs) =
     (case switch c x of
        None \<Rightarrow> emitted c n l xs
      | Some ev \<Rightarrow>
          (bucket_of ev, fst (produce c n l ev x)) # emitted c n (snd (produce c n l ev x)) xs)"

definition values_for :: "bucket \<Rightarrow> (bucket \<times> 'v) list \<Rightarrow> 'v list" where
  "values_for b es = map snd (filter (\<lambda>e. fst e = b) es)"


definition elements :: "'v list option \<Rightarrow> 'v list" where
  "elements f = (case f of None \<Rightarrow> [] | Some vs \<Rightarrow> vs)"

text \<open>The cases that, run on a payload without fields, create field \<open>b\<close>.\<close>

definition initial :: "('d, 'l) env \<Rightarrow> jsnum \<Rightarrow> Payload \<Rightarrow> ('d, 'l) state" where
  "initial c now json =
     \<lparr>payload = \<lparr>timestamp = now, envelope = data_envelope c (json_e json), buckets = Map.empty\<rparr>,
      layout = layout_reset c, console = []\<rparr>"

definition cases_for :: "('d, 'l) env \<Rightarrow> bucket \<Rightarrow> Event list" where
  "cases_for c b =
     filter (\<lambda>ev. buckets (payload (handle c 0 ev []
                     (initial c (Num 0) \<lparr>json_e = [], json_a = [], json_p = None\<rparr>))) b \<noteq> None)
       cases"

definition declared_version :: "('d, 'l) env \<Rightarrow> Payload \<Rightarrow> string" where
  "declared_version c json = version (data_envelope c (json_e json))"

text \<open>A metric event whose \<open>TotalBytes\<close> is \<open>n\<close>; a state with another timestamp.\<close>

definition total_bytes_is :: "nat \<Rightarrow> 'd decoded \<Rightarrow> bool" where
  "total_bytes_is n v =
     (case v of MetricEv m \<Rightarrow> data m TotalBytes = Some (Num (of_nat n)) | Ev _ \<Rightarrow> False)"

definition at_time :: "jsnum \<Rightarrow> ('d, 'l) state \<Rightarrow> ('d, 'l) state" where
  "at_time t s = s\<lparr>payload := (payload s)\<lparr>timestamp := t\<rparr>\<rparr>"

subsection \<open>A sample environment\<close>

text \<open>
  Decoders that return the entry they are given (the metric decoder reads
  \<open>TotalBytes\<close> from element 2), a layout decoder that counts its calls, the events
  numbered in the order of the \<open>switch\<close>, and a parser that knows one text: an
  envelope declaring a version, three events on \<open>a\<close> and two on \<open>p\<close>.
\<close>

definition sample_code :: "Event \<Rightarrow> int" where
  "sample_code ev = int (length (takeWhile (\<lambda>x. x \<noteq> ev) cases))"

definition sample_envelope :: "entry \<Rightarrow> Envelope" where
  "sample_envelope e =
     \<lparr>projectId = Num 0, userId = Num 0, sessionId = Num 0, pageId = Num 0, sequence = Num 0,
      start = Num 0, duration = Num 0,
      version = (case e of TString v # _ \<Rightarrow> v | _ \<Rightarrow> []),
      upload = Async, end_flag = False_flag\<rparr>"

definition sample_text :: "string \<Rightarrow> string" where
  \<open>sample_text declared =
     ''{"e":["'' @ declared @ ''"],"a":[[20,4,7],[10,10],[30,99]],"p":[[10,4,5],[10,30]]}''\<close>

definition sample_json :: "string \<Rightarrow> Payload" where
  "sample_json declared =
     \<lparr>json_e = [TString declared],
      json_a = [[TNumber (Num 20), TNumber (Num 4), TNumber (Num 7)],
                [TNumber (Num 10), TNumber (Num 10)],
                [TNumber (Num 30), TNumber (Num 99)]],
      json_p = Some [[TNumber (Num 10), TNumber (Num 4), TNumber (Num 5)],
                     [TNumber (Num 10), TNumber (Num 30)]]\<rparr>"

definition sample_metric :: "entry \<Rightarrow> entry MetricEvent" where
  "sample_metric x =
     \<lparr>partial = take 2 x,
      data = (case drop 2 x of TNumber v # _ \<Rightarrow> Map.empty(TotalBytes \<mapsto> v) | _ \<Rightarrow> Map.empty)\<rparr>"

definition sample_env :: "string \<Rightarrow> string \<Rightarrow> (entry, nat) env" where
  "sample_env running declared =
     \<lparr>clarity_version = running,
      event_code = sample_code,
      JSON_parse = (\<lambda>s. if s = sample_text declared then Some (sample_json declared) else None),
      data_envelope = sample_envelope,
      data_decode = (\<lambda>x. x),
      data_decode_metric = sample_metric,
      interaction_decode = (\<lambda>x. x),
      layout_reset = 0,
      layout_decode = (\<lambda>l x. (x, Suc l)),
      diagnostic_decode = (\<lambda>x. x),
      performance_decode = (\<lambda>x. x)\<rparr>"

section \<open>Properties\<close>

subsection \<open>\<open>parseVersion\<close>\<close>

lemma length_3_conv: "(length xs = 3) = (\<exists>a b c. xs = [a, b, c])"
  by (cases xs; simp; cases "tl xs"; simp; cases "tl (tl xs)"; auto)

lemma length_2_conv: "(length xs = 2) = (\<exists>a b. xs = [a, b])"
  by (cases xs; simp; cases "tl xs"; auto)

lemma parseVersion_eq_spec: "parseVersion s = parseVersion_spec s"
proof (cases "length (split s ''.'') = 3")
  case True
  then obtain a b c where p: "split s ''.'' = [a, b, c]"
    by (auto simp: length_3_conv)
  show ?thesis
  proof (cases "length (split c ''-b'') = 2")
    case True
    then obtain x y where q: "split c ''-b'' = [x, y]"
      by (auto simp: length_2_conv)
    show ?thesis
      by (simp add: parseVersion_def parseVersion_spec_def p q Let_def)
  next
    case False
    then have "\<And>x y. split c ''-b'' \<noteq> [x, y]"
      by auto
    then show ?thesis using False
      by (simp add: parseVersion_def parseVersion_spec_def p Let_def split: list.splits)
  qed
next
  case False
  then have "\<And>a b c. split s ''.'' \<noteq> [a, b, c]"
    by auto
  then show ?thesis using False
    by (simp add: parseVersion_def parseVersion_spec_def Let_def split: list.splits)
qed

lemmas parse_defs = parseVersion_def split_def parseInt_def is_space_def is_digit_def
  digits_value_def Let_def

text \<open>
  C2. For every string, \<open>parseVersion\<close> is the version the specification describes:
  the zero version unless the string has exactly three parts between dots, and otherwise
  the third part split on \<open>-b\<close> into patch and beta when that gives two pieces, and
  taken whole as the patch, with beta 0, when it does not. \<open>"1.2.3-b7"\<close> parses to
  \<open>{1,2,3,7}\<close>, \<open>"1.2.3"\<close> to \<open>{1,2,3,0}\<close> and \<open>"bad"\<close> to \<open>{0,0,0,0}\<close>.
\<close>

theorem parseVersion_splits:
  "parseVersion s = parseVersion_spec s \<and>
   parseVersion ''1.2.3-b7'' = \<lparr>major = Num 1, minor = Num 2, patch = Num 3, beta = Num 7\<rparr> \<and>
   parseVersion ''1.2.3'' = \<lparr>major = Num 1, minor = Num 2, patch = Num 3, beta = Num 0\<rparr> \<and>
   parseVersion ''bad'' = \<lparr>major = Num 0, minor = Num 0, patch = Num 0, beta = Num 0\<rparr>"
proof -
  have a: "parseVersion ''1.2.3-b7'' =
             \<lparr>major = Num 1, minor = Num 2, patch = Num 3, beta = Num 7\<rparr>"
    by (simp add: parse_defs)
  have b: "parseVersion ''1.2.3'' =
             \<lparr>major = Num 1, minor = Num 2, patch = Num 3, beta = Num 0\<rparr>"
    by (simp add: parse_defs)
  have c: "parseVersion ''bad'' =
             \<lparr>major = Num 0, minor = Num 0, patch = Num 0, beta = Num 0\<rparr>"
    by (simp add: parse_defs)
  show ?thesis
    by (intro conjI parseVersion_eq_spec a b c)
qed

theorem parseVersion_splits_witness:
  "parseVersion ''0.6.10-b2'' = parseVersion_spec ''0.6.10-b2'' \<and>
   parseVersion_spec ''0.6.10-b2'' =
     \<lparr>major = Num 0, minor = Num 6, patch = Num 10, beta = Num 2\<rparr>"
  using parseVersion_splits [of "''0.6.10-b2''"]
  by (simp add: parseVersion_spec_def parse_defs)

subsection \<open>The version check\<close>

text \<open>Where neither patch is \<open>NaN\<close> the check is the rule of the specification, beta
  never changes its outcome, and the four examples of the specification come out as
  stated.\<close>

lemma version_check_non_nan:
  "patch i \<noteq> NaN \<Longrightarrow> patch r \<noteq> NaN \<Longrightarrow> (\<not> version_mismatch i r) = isCompatible_spec i r"
  by (cases "major i"; cases "major r"; cases "minor i"; cases "minor r";
      cases "patch i"; cases "patch r")
    (auto simp: version_mismatch_def isCompatible_spec_def js_neq_def)

lemma version_check_beta:
  "version_mismatch (i\<lparr>beta := x\<rparr>) (r\<lparr>beta := y\<rparr>) = version_mismatch i r"
  by (simp add: version_mismatch_def)

lemma version_check_table:
  "\<not> version_mismatch \<lparr>major = Num 1, minor = Num 2, patch = Num 3, beta = x\<rparr>
                       \<lparr>major = Num 1, minor = Num 2, patch = Num 4, beta = y\<rparr>"
  "version_mismatch \<lparr>major = Num 1, minor = Num 2, patch = Num 3, beta = x\<rparr>
                    \<lparr>major = Num 1, minor = Num 2, patch = Num 5, beta = y\<rparr>"
  "version_mismatch \<lparr>major = Num 1, minor = Num 3, patch = Num 0, beta = x\<rparr>
                    \<lparr>major = Num 1, minor = Num 2, patch = Num 0, beta = y\<rparr>"
  "version_mismatch \<lparr>major = Num 2, minor = Num 2, patch = Num 0, beta = x\<rparr>
                    \<lparr>major = Num 1, minor = Num 2, patch = Num 0, beta = y\<rparr>"
  by (simp_all add: version_mismatch_def js_neq_def)

text \<open>A major or a minor that is \<open>NaN\<close> fails the check against every version; a patch
  that is \<open>NaN\<close> never fails the third test.\<close>

lemma nan_major_minor_rejected:
  "major i = NaN \<or> minor i = NaN \<Longrightarrow> version_mismatch i r"
  by (auto simp: version_mismatch_def js_neq_def)

lemma nan_patch_passes:
  "patch i = NaN \<Longrightarrow>
   version_mismatch i r = (js_neq (major i) (major r) \<or> js_neq (minor i) (minor r))"
  by (simp add: version_mismatch_def)

text \<open>
  C1. The check is not the rule of the specification on every pair of parsed versions:
  \<open>"1.2.x"\<close> parses to a version whose patch is \<open>NaN\<close>, and it passes the check against
  \<open>"1.2.0"\<close>, although the rule (the patches differ by at most 1) does not hold of the
  two.
\<close>

theorem nan_patch_passes_check:
  "\<not> version_mismatch (parseVersion ''1.2.x'') (parseVersion ''1.2.0'') \<and>
   \<not> isCompatible_spec (parseVersion ''1.2.x'') (parseVersion ''1.2.0'')"
  by (simp add: version_mismatch_def isCompatible_spec_def js_neq_def parse_defs)

theorem nan_patch_passes_check_witness:
  "(\<not> version_mismatch (parseVersion ''1.2.x'') (parseVersion ''1.2.0'')) \<noteq>
   isCompatible_spec (parseVersion ''1.2.x'') (parseVersion ''1.2.0'')"
  using nan_patch_passes_check by simp

subsection \<open>The merged sequence\<close>

lemma by_time_gt:
  "has_time x \<Longrightarrow> has_time y \<Longrightarrow>
   js_gt (by_time x y) (Num 0) = (\<not> time_key x \<le> time_key y)"
  by (cases "time_of x"; cases "time_of y") (auto simp: has_time_def by_time_def time_key_def)

lemma insert_by_time:
  "has_time x \<Longrightarrow> list_all has_time ys \<Longrightarrow> insert_by by_time x ys = insort_key time_key x ys"
  by (induction ys) (simp_all add: by_time_gt)

lemma array_sort_by_time:
  "list_all has_time xs \<Longrightarrow> array_sort by_time xs = sort_key time_key xs"
proof (induction xs)
  case Nil
  show ?case by (simp add: array_sort_def)
next
  case (Cons x xs)
  then have ih: "array_sort by_time xs = sort_key time_key xs" and hx: "has_time x"
    and hxs: "list_all has_time xs"
    by simp_all
  have "list_all has_time (sort_key time_key xs)"
    using hxs by (simp add: list_all_iff)
  then show ?case
    using ih hx by (simp add: array_sort_def insert_by_time)
qed




lemma sample_encoded:
  "encoded (sample_json d) =
     [[TNumber (Num 10), TNumber (Num 10)], [TNumber (Num 10), TNumber (Num 4), TNumber (Num 5)],
      [TNumber (Num 10), TNumber (Num 30)], [TNumber (Num 20), TNumber (Num 4), TNumber (Num 7)],
      [TNumber (Num 30), TNumber (Num 99)]]"
  by (simp add: encoded_def sample_json_def array_sort_def by_time_def time_of_def)

subsection \<open>The dispatcher\<close>

lemmas case_lists = data_cases_def pointer_cases_def interaction_cases_def layout_cases_def
  diagnostic_cases_def

lemma handle_push:
  "handle c n ev x s =
     push (bucket_of ev) (fst (produce c n (layout s) ev x))
       (s\<lparr>layout := snd (produce c n (layout s) ev x)\<rparr>)"
  by (cases ev) (simp_all add: produce_def case_lists push_layout_def Let_def split: prod.split)

lemma buckets_push:
  "buckets (payload (push b v s)) b' =
     (if b' = b then Some (elements (buckets (payload s) b) @ [v]) else buckets (payload s) b')"
  by (simp add: push_def elements_def)

lemma payload_push:
  "payload (push b v s) =
     (payload s)\<lparr>buckets := (buckets (payload s))(b \<mapsto> elements (buckets (payload s) b) @ [v])\<rparr>"
  by (simp add: push_def elements_def)

lemma push_other [simp]:
  "layout (push b v s) = layout s" "console (push b v s) = console s"
  "timestamp (payload (push b v s)) = timestamp (payload s)"
  "envelope (payload (push b v s)) = envelope (payload s)"
  by (simp_all add: push_def)

lemma step_handled:
  "switch c x = Some ev \<Longrightarrow>
   step c n s x = push (bucket_of ev) (fst (produce c n (layout s) ev x))
                    (s\<lparr>layout := snd (produce c n (layout s) ev x)\<rparr>)"
  by (simp add: step_def handle_push)

lemma step_unhandled:
  "switch c x = None \<Longrightarrow> step c n s x = s\<lparr>console := console s @ [x]\<rparr>"
  by (simp add: step_def)

lemma buckets_step:
  "buckets (payload (step c n s x)) b =
     (case switch c x of
        None \<Rightarrow> buckets (payload s) b
      | Some ev \<Rightarrow>
          if bucket_of ev = b
          then Some (elements (buckets (payload s) b) @ [fst (produce c n (layout s) ev x)])
          else buckets (payload s) b)"
  by (auto simp: step_handled step_unhandled buckets_push split: option.split)

lemma layout_step:
  "layout (step c n s x) =
     (case switch c x of None \<Rightarrow> layout s | Some ev \<Rightarrow> snd (produce c n (layout s) ev x))"
  by (auto simp: step_handled step_unhandled split: option.split)

lemma console_step:
  "console (step c n s x) =
     (case switch c x of None \<Rightarrow> console s @ [x] | Some ev \<Rightarrow> console s)"
  by (auto simp: step_handled step_unhandled split: option.split)

lemma buckets_foldl:
  "buckets (payload (foldl (step c n) s xs)) b =
     (if values_for b (emitted c n (layout s) xs) = [] then buckets (payload s) b
      else Some (elements (buckets (payload s) b) @ values_for b (emitted c n (layout s) xs)))"
proof (induction xs arbitrary: s)
  case Nil
  show ?case by (simp add: values_for_def)
next
  case (Cons x xs)
  show ?case
  proof (cases "switch c x")
    case None
    then show ?thesis
      by (simp add: Cons.IH buckets_step layout_step)
  next
    case (Some ev)
    then show ?thesis
      by (simp add: Cons.IH buckets_step layout_step values_for_def elements_def)
  qed
qed

lemma console_foldl:
  "console (foldl (step c n) s xs) = console s @ filter (\<lambda>x. switch c x = None) xs"
  by (induction xs arbitrary: s) (simp_all add: console_step split: option.split)

lemma timestamp_foldl:
  "timestamp (payload (foldl (step c n) s xs)) = timestamp (payload s)"
proof (induction xs arbitrary: s)
  case Nil
  show ?case by simp
next
  case (Cons x xs)
  have "timestamp (payload (step c n s x)) = timestamp (payload s)"
    by (cases "switch c x") (simp_all add: step_handled step_unhandled)
  then show ?case by (simp add: Cons.IH)
qed

text \<open>A step reads the payload and the layout state only, so the entries that reach
  \<open>default\<close> can be left out of a run without changing either.\<close>

lemma step_same:
  assumes "payload s = payload s'" and "layout s = layout s'"
  shows "payload (step c n s x) = payload (step c n s' x) \<and>
         layout (step c n s x) = layout (step c n s' x)"
proof (cases "switch c x")
  case None
  then show ?thesis using assms by (simp add: step_unhandled)
next
  case (Some ev)
  then show ?thesis using assms by (simp add: step_handled payload_push)
qed

lemma foldl_step_same:
  "payload s = payload s' \<Longrightarrow> layout s = layout s' \<Longrightarrow>
   payload (foldl (step c n) s xs) = payload (foldl (step c n) s' xs) \<and>
   layout (foldl (step c n) s xs) = layout (foldl (step c n) s' xs)"
proof (induction xs arbitrary: s s')
  case Nil
  then show ?case by simp
next
  case (Cons x xs)
  show ?case
    using Cons.IH [OF step_same [OF Cons.prems, THEN conjunct1]
        step_same [OF Cons.prems, THEN conjunct2]]
    by simp
qed

lemma foldl_step_filter:
  "payload (foldl (step c n) s xs) =
     payload (foldl (step c n) s (filter (\<lambda>x. switch c x \<noteq> None) xs)) \<and>
   layout (foldl (step c n) s xs) =
     layout (foldl (step c n) s (filter (\<lambda>x. switch c x \<noteq> None) xs))"
proof (induction xs arbitrary: s)
  case Nil
  show ?case by simp
next
  case (Cons x xs)
  show ?case
  proof (cases "switch c x")
    case None
    have "payload (s\<lparr>console := console s @ [x]\<rparr>) = payload s"
      and "layout (s\<lparr>console := console s @ [x]\<rparr>) = layout s"
      by simp_all
    from foldl_step_same [OF this] show ?thesis using None
      by (simp add: Cons.IH step_unhandled)
  next
    case (Some ev)
    then show ?thesis
      using Cons.IH by simp
  qed
qed



lemma produce_metric: "total_bytes_is n (fst (produce c n l Metric x))"
  by (simp add: produce_def total_bytes_is_def)

lemma bucket_of_metric: "(bucket_of ev = metric_bucket) = (ev = Metric)"
  by (cases ev) simp_all

lemma values_for_metric:
  "list_all (total_bytes_is n) (values_for metric_bucket (emitted c n l xs))"
proof (induction xs arbitrary: l)
  case Nil
  show ?case by (simp add: values_for_def)
next
  case (Cons x xs)
  show ?case
  proof (cases "switch c x")
    case None
    then show ?thesis using Cons.IH by simp
  next
    case (Some ev)
    then show ?thesis
      using Cons.IH [of "snd (produce c n l ev x)"]
      by (auto simp: values_for_def bucket_of_metric produce_metric)
  qed
qed

text \<open>With distinct numbers for the events, an entry that carries the number of an
  event reaches the \<open>case\<close> of that event.\<close>

lemma in_cases: "ev \<in> set cases"
  by (cases ev) (simp_all add: cases_def)

lemma find_distinct:
  "distinct (map f xs) \<Longrightarrow> e \<in> set xs \<Longrightarrow> find (\<lambda>y. f y = f e) xs = Some e"
  by (induction xs) auto

lemma switch_code:
  assumes "distinct (map (event_code c) cases)" and "is_case c x ev"
  shows "switch c x = Some ev"
proof -
  have "is_case c x y = (event_code c y = event_code c ev)" for y
    using assms(2) by (auto simp: is_case_def)
  then have "is_case c x = (\<lambda>y. event_code c y = event_code c ev)"
    by (simp add: fun_eq_iff)
  then show ?thesis
    using find_distinct [OF assms(1) in_cases, of ev] by (simp add: switch_def)
qed

lemma bucket_of_pointer: "(bucket_of ev = pointer_bucket) = (ev \<in> set pointer_cases)"
  by (cases ev) (simp_all add: pointer_cases_def)

lemma bucket_of_dom: "(bucket_of ev = dom_bucket) = (ev = Discover \<or> ev = Mutation)"
  by (cases ev) simp_all

lemma pushed_differs: "Some (elements f @ [v]) \<noteq> f"
  by (cases f) (simp_all add: elements_def)

lemma handle_changes:
  "(buckets (payload (handle c n ev x s)) b \<noteq> buckets (payload s) b) = (bucket_of ev = b)"
  by (simp add: handle_push buckets_push pushed_differs)

lemma handle_pointer:
  "ev \<in> set pointer_cases \<Longrightarrow>
   handle c n ev x s = push pointer_bucket (Ev (interaction_decode c x)) s"
  by (auto simp: pointer_cases_def)

lemma pointer_cases_in_cases: "cases = take 10 cases @ pointer_cases @ drop 19 cases"
  by (simp add: cases_def pointer_cases_def)

subsection \<open>\<open>decode\<close>\<close>

lemma decode_Inr:
  "JSON_parse c input = Some json \<Longrightarrow>
   \<not> version_mismatch (parseVersion (declared_version c json))
       (parseVersion (clarity_version c)) \<Longrightarrow>
   decode c now input = Inr (foldl (step c (length input)) (initial c now json) (encoded json))"
  by (simp add: decode_def initial_def declared_version_def Let_def)

lemma decode_Inl:
  "JSON_parse c input = Some json \<Longrightarrow>
   version_mismatch (parseVersion (declared_version c json)) (parseVersion (clarity_version c)) \<Longrightarrow>
   decode c now input =
     Inl (Error (mismatch_message (declared_version c json) (clarity_version c) input))"
  by (simp add: decode_def declared_version_def Let_def)

lemma decode_Inr_iff:
  "JSON_parse c input = Some json \<Longrightarrow>
   (decode c now input = Inr r) =
   (\<not> version_mismatch (parseVersion (declared_version c json))
        (parseVersion (clarity_version c)) \<and>
    r = foldl (step c (length input)) (initial c now json) (encoded json))"
  by (auto simp: decode_def initial_def declared_version_def Let_def)

lemma substr_take: "substr s 0 n = take n s"
  by (simp add: substr_def)

lemma push_at_time: "push b v (at_time t s) = at_time t (push b v s)"
  by (simp add: push_def at_time_def)

lemma step_at_time: "step c n (at_time t s) x = at_time t (step c n s x)"
proof (cases "switch c x")
  case None
  then show ?thesis by (simp add: step_unhandled at_time_def)
next
  case (Some ev)
  have "layout (at_time t s) = layout s"
    by (simp add: at_time_def)
  moreover have "(at_time t s)\<lparr>layout := l\<rparr> = at_time t (s\<lparr>layout := l\<rparr>)" for l
    by (simp add: at_time_def)
  ultimately show ?thesis using Some
    by (simp add: step_handled push_at_time)
qed

lemma foldl_at_time: "foldl (step c n) (at_time t s) xs = at_time t (foldl (step c n) s xs)"
  by (induction xs arbitrary: s) (simp_all add: step_at_time)

lemma decode_at_time:
  fixes c :: "('d, 'l) env"
  shows "decode c t' input = map_sum id (at_time t') (decode c t input)"
proof (cases "JSON_parse c input")
  case None
  then show ?thesis by (simp add: decode_def)
next
  case (Some json)
  let ?s = "\<lambda>t. \<lparr>payload = \<lparr>timestamp = t, envelope = data_envelope c (json_e json),
                buckets = (Map.empty :: bucket \<Rightarrow> 'd decoded list option)\<rparr>,
              layout = layout_reset c, console = []\<rparr>"
  have "?s t' = at_time t' (?s t)"
    by (simp add: at_time_def)
  then have "foldl (step c (length input)) (?s t') (encoded json)
             = at_time t' (foldl (step c (length input)) (?s t) (encoded json))"
    by (simp only: foldl_at_time)
  then show ?thesis using Some
    by (simp add: decode_def Let_def)
qed

subsection \<open>The sample run\<close>

lemma sample_env_simps:
  "clarity_version (sample_env r d) = r"
  "event_code (sample_env r d) = sample_code"
  "JSON_parse (sample_env r d) (sample_text d) = Some (sample_json d)"
  "data_envelope (sample_env r d) = sample_envelope"
  "data_decode (sample_env r d) = (\<lambda>x. x)"
  "data_decode_metric (sample_env r d) = sample_metric"
  "interaction_decode (sample_env r d) = (\<lambda>x. x)"
  "layout_reset (sample_env r d) = 0"
  "layout_decode (sample_env r d) = (\<lambda>l x. (x, Suc l))"
  "diagnostic_decode (sample_env r d) = (\<lambda>x. x)"
  "performance_decode (sample_env r d) = (\<lambda>x. x)"
  by (simp_all add: sample_env_def)

lemma sample_declared: "declared_version (sample_env r d) (sample_json d) = d"
  by (simp add: declared_version_def sample_env_simps sample_json_def sample_envelope_def)

lemma sample_parse: "JSON_parse (sample_env r d) (sample_text d) = Some (sample_json d)"
  by (simp add: sample_env_simps)

lemma sample_distinct: "distinct (map (event_code (sample_env r d)) cases)"
  by (simp add: sample_env_simps sample_code_def cases_def)

lemmas sample_switch_defs = switch_def is_case_def sample_env_simps sample_code_def cases_def

lemma sample_emitted:
  "emitted (sample_env r d) n 0 (encoded (sample_json d)) =
     [(pointer_bucket, Ev [TNumber (Num 10), TNumber (Num 10)]),
      (metric_bucket, MetricEv \<lparr>partial = [TNumber (Num 10), TNumber (Num 4)],
                               data = Map.empty(TotalBytes \<mapsto> Num (of_nat n))\<rparr>),
      (dom_bucket, Ev [TNumber (Num 10), TNumber (Num 30)]),
      (metric_bucket, MetricEv \<lparr>partial = [TNumber (Num 20), TNumber (Num 4)],
                               data = Map.empty(TotalBytes \<mapsto> Num (of_nat n))\<rparr>)]"
  unfolding sample_encoded
  by (simp add: sample_switch_defs produce_def case_lists sample_metric_def)

lemma sample_unhandled:
  "filter (\<lambda>x. switch (sample_env r d) x = None) (encoded (sample_json d)) =
     [[TNumber (Num 30), TNumber (Num 99)]]"
  unfolding sample_encoded
  by (simp add: sample_switch_defs)

lemma sample_compatible:
  "\<not> version_mismatch
       (parseVersion (declared_version (sample_env ''1.2.3'' ''1.2.4'') (sample_json ''1.2.4'')))
       (parseVersion (clarity_version (sample_env ''1.2.3'' ''1.2.4'')))"
  unfolding sample_declared sample_env_simps
  by (simp add: version_mismatch_def js_neq_def parse_defs)

lemma sample_length: "length (sample_text ''1.2.4'') = 69"
  by (simp add: sample_text_def)

lemma sample_decode:
  "decode (sample_env ''1.2.3'' ''1.2.4'') now (sample_text ''1.2.4'') =
     Inr (foldl (step (sample_env ''1.2.3'' ''1.2.4'') 69)
            (initial (sample_env ''1.2.3'' ''1.2.4'') now (sample_json ''1.2.4''))
            (encoded (sample_json ''1.2.4'')))"
  using decode_Inr [OF sample_parse sample_compatible, of now] by (simp add: sample_length)

subsection \<open>The claims about \<open>decode\<close>\<close>

text \<open>
  C3. For every payload whose entries begin with a number, the sequence that the
  dispatcher runs over is the stable ascending sort, by element 0, of \<open>a\<close> followed by
  \<open>p\<close>, and of \<open>a\<close> alone when \<open>p\<close> is absent: it is ordered by time, and the entries
  of any one time are those of \<open>a\<close> in their order followed by those of \<open>p\<close> in theirs.
  Where \<open>decode\<close> does not throw, its result is the run of the dispatcher over that
  sorted sequence, from the payload without fields.
\<close>

theorem encoded_stable_sort:
  assumes "list_all has_time (json_a json)" and "list_all has_time (elements (json_p json))"
  shows "encoded json = sort_key time_key (json_a json @ elements (json_p json)) \<and>
         (json_p json = None \<longrightarrow> encoded json = sort_key time_key (json_a json)) \<and>
         sorted (map time_key (encoded json)) \<and>
         (\<forall>t. filter (\<lambda>x. time_key x = t) (encoded json) =
              filter (\<lambda>x. time_key x = t) (json_a json) @
              filter (\<lambda>x. time_key x = t) (elements (json_p json))) \<and>
         (JSON_parse c input = Some json \<longrightarrow>
            decode c now input =
              (if version_mismatch (parseVersion (declared_version c json))
                    (parseVersion (clarity_version c))
               then Inl (Error (mismatch_message (declared_version c json)
                                  (clarity_version c) input))
               else Inr (foldl (step c (length input)) (initial c now json)
                           (sort_key time_key (json_a json @ elements (json_p json))))))"
proof -
  have ch: "(case json_p json of Some p \<Rightarrow> json_a json @ p | None \<Rightarrow> json_a json)
            = json_a json @ elements (json_p json)"
    by (simp add: elements_def split: option.split)
  have e: "encoded json = sort_key time_key (json_a json @ elements (json_p json))"
    unfolding encoded_def ch using assms by (simp add: array_sort_by_time)
  have n: "json_p json = None \<longrightarrow> encoded json = sort_key time_key (json_a json)"
    using e by (simp add: elements_def)
  have s: "sorted (map time_key (encoded json))"
    unfolding e by simp
  have f: "\<forall>t. filter (\<lambda>x. time_key x = t) (encoded json) =
              filter (\<lambda>x. time_key x = t) (json_a json) @
              filter (\<lambda>x. time_key x = t) (elements (json_p json))"
    unfolding e by (simp add: sort_key_stable)
  have d: "JSON_parse c input = Some json \<longrightarrow>
            decode c now input =
              (if version_mismatch (parseVersion (declared_version c json))
                    (parseVersion (clarity_version c))
               then Inl (Error (mismatch_message (declared_version c json)
                                  (clarity_version c) input))
               else Inr (foldl (step c (length input)) (initial c now json)
                           (sort_key time_key (json_a json @ elements (json_p json)))))"
    unfolding e [symmetric] by (simp add: decode_Inr decode_Inl)
  show ?thesis
    by (intro conjI e n s f d)
qed

theorem encoded_stable_sort_witness:
  "list_all has_time (json_a (sample_json ''1.2.4'')) \<and>
   list_all has_time (elements (json_p (sample_json ''1.2.4''))) \<and>
   sort_key time_key (json_a (sample_json ''1.2.4'') @ elements (json_p (sample_json ''1.2.4''))) =
     [[TNumber (Num 10), TNumber (Num 10)], [TNumber (Num 10), TNumber (Num 4), TNumber (Num 5)],
      [TNumber (Num 10), TNumber (Num 30)], [TNumber (Num 20), TNumber (Num 4), TNumber (Num 7)],
      [TNumber (Num 30), TNumber (Num 99)]] \<and>
   filter (\<lambda>x. time_key x = 10) (encoded (sample_json ''1.2.4'')) =
     [[TNumber (Num 10), TNumber (Num 10)], [TNumber (Num 10), TNumber (Num 4), TNumber (Num 5)],
      [TNumber (Num 10), TNumber (Num 30)]] \<and>
   (\<exists>r. decode (sample_env ''1.2.3'' ''1.2.4'') (Num 0) (sample_text ''1.2.4'') = Inr r \<and>
        r = foldl (step (sample_env ''1.2.3'' ''1.2.4'') 69)
              (initial (sample_env ''1.2.3'' ''1.2.4'') (Num 0) (sample_json ''1.2.4''))
              [[TNumber (Num 10), TNumber (Num 10)],
               [TNumber (Num 10), TNumber (Num 4), TNumber (Num 5)],
               [TNumber (Num 10), TNumber (Num 30)],
               [TNumber (Num 20), TNumber (Num 4), TNumber (Num 7)],
               [TNumber (Num 30), TNumber (Num 99)]] \<and>
        map (\<lambda>v. case v of MetricEv m \<Rightarrow> partial m | Ev x \<Rightarrow> x)
            (elements (buckets (payload r) metric_bucket)) =
          [[TNumber (Num 10), TNumber (Num 4)], [TNumber (Num 20), TNumber (Num 4)]])"
proof -
  let ?c = "sample_env ''1.2.3'' ''1.2.4''"
  let ?j = "sample_json ''1.2.4''"
  let ?xs = "[[TNumber (Num 10), TNumber (Num 10)],
              [TNumber (Num 10), TNumber (Num 4), TNumber (Num 5)],
              [TNumber (Num 10), TNumber (Num 30)],
              [TNumber (Num 20), TNumber (Num 4), TNumber (Num 7)],
              [TNumber (Num 30), TNumber (Num 99)]]"
  let ?r = "foldl (step ?c 69) (initial ?c (Num 0) ?j) ?xs"
  have a: "list_all has_time (json_a ?j)"
    and p: "list_all has_time (elements (json_p ?j))"
    by (simp_all add: sample_json_def has_time_def time_of_def elements_def)
  note t = encoded_stable_sort [OF a p, of ?c "sample_text ''1.2.4''" "Num 0"]
  have e: "encoded ?j = sort_key time_key (json_a ?j @ elements (json_p ?j))"
    by (rule t [THEN conjunct1])
  have f: "\<forall>t. filter (\<lambda>x. time_key x = t) (encoded ?j) =
         filter (\<lambda>x. time_key x = t) (json_a ?j) @
         filter (\<lambda>x. time_key x = t) (elements (json_p ?j))"
    by (rule t [THEN conjunct2, THEN conjunct2, THEN conjunct2, THEN conjunct1])
  have s: "sort_key time_key (json_a ?j @ elements (json_p ?j)) = ?xs"
    unfolding e [symmetric] by (rule sample_encoded)
  have g: "filter (\<lambda>x. time_key x = 10) (encoded ?j) =
     [[TNumber (Num 10), TNumber (Num 10)], [TNumber (Num 10), TNumber (Num 4), TNumber (Num 5)],
      [TNumber (Num 10), TNumber (Num 30)]]"
    unfolding f [rule_format]
    by (simp add: sample_json_def elements_def time_key_def time_of_def)
  have "decode ?c (Num 0) (sample_text ''1.2.4'') =
          (if version_mismatch (parseVersion (declared_version ?c ?j))
                (parseVersion (clarity_version ?c))
           then Inl (Error (mismatch_message (declared_version ?c ?j) (clarity_version ?c)
                              (sample_text ''1.2.4'')))
           else Inr (foldl (step ?c (length (sample_text ''1.2.4''))) (initial ?c (Num 0) ?j)
                       (sort_key time_key (json_a ?j @ elements (json_p ?j)))))"
    using t [THEN conjunct2, THEN conjunct2, THEN conjunct2, THEN conjunct2] sample_parse
    by (rule mp)
  then have d: "decode ?c (Num 0) (sample_text ''1.2.4'') = Inr ?r"
    using sample_compatible by (simp only: s sample_length if_False)
  have "buckets (payload (foldl (step ?c 69) (initial ?c (Num 0) ?j) (encoded ?j))) metric_bucket =
          Some [MetricEv \<lparr>partial = [TNumber (Num 10), TNumber (Num 4)],
                          data = Map.empty(TotalBytes \<mapsto> Num (of_nat 69))\<rparr>,
                MetricEv \<lparr>partial = [TNumber (Num 20), TNumber (Num 4)],
                          data = Map.empty(TotalBytes \<mapsto> Num (of_nat 69))\<rparr>]"
    by (simp add: buckets_foldl values_for_def elements_def initial_def sample_emitted
        sample_env_simps)
  then have "buckets (payload ?r) metric_bucket =
          Some [MetricEv \<lparr>partial = [TNumber (Num 10), TNumber (Num 4)],
                          data = Map.empty(TotalBytes \<mapsto> Num (of_nat 69))\<rparr>,
                MetricEv \<lparr>partial = [TNumber (Num 20), TNumber (Num 4)],
                          data = Map.empty(TotalBytes \<mapsto> Num (of_nat 69))\<rparr>]"
    by (simp only: sample_encoded)
  then have m: "map (\<lambda>v. case v of MetricEv m \<Rightarrow> partial m | Ev x \<Rightarrow> x)
            (elements (buckets (payload ?r) metric_bucket)) =
          [[TNumber (Num 10), TNumber (Num 4)], [TNumber (Num 20), TNumber (Num 4)]]"
    by (simp only: elements_def option.case list.map decoded.case MetricEvent.select_convs)
  have "\<exists>r. decode ?c (Num 0) (sample_text ''1.2.4'') = Inr r \<and> r = ?r \<and>
        map (\<lambda>v. case v of MetricEv m \<Rightarrow> partial m | Ev x \<Rightarrow> x)
            (elements (buckets (payload r) metric_bucket)) =
          [[TNumber (Num 10), TNumber (Num 4)], [TNumber (Num 20), TNumber (Num 4)]]"
    by (rule exI [of _ ?r]) (intro conjI d refl m)
  then show ?thesis
    by (intro conjI a p s g)
qed

text \<open>Where the check of the code fails, \<open>decode\<close> throws: its result is the error,
  with no payload, and the message holds the declared version, the running version and
  the first 250 characters of the input. So it does for every declared version that
  breaks the rule of the specification, unless a patch is \<open>NaN\<close>.\<close>

lemma decode_throws:
  assumes "JSON_parse c input = Some json"
    and "version_mismatch (parseVersion (declared_version c json))
           (parseVersion (clarity_version c))"
  shows "decode c now input =
           Inl (Error (''Invalid version. Actual: '' @ declared_version c json @
                       '' | Expected: '' @ clarity_version c @ '' (+/- 1) | '' @ take 250 input))"
  using assms by (simp add: decode_Inl mismatch_message_def substr_take)

lemma decode_throws_incompatible:
  assumes "JSON_parse c input = Some json"
    and "patch (parseVersion (declared_version c json)) \<noteq> NaN"
    and "patch (parseVersion (clarity_version c)) \<noteq> NaN"
    and "\<not> isCompatible_spec (parseVersion (declared_version c json))
             (parseVersion (clarity_version c))"
  shows "decode c now input =
           Inl (Error (''Invalid version. Actual: '' @ declared_version c json @
                       '' | Expected: '' @ clarity_version c @ '' (+/- 1) | '' @ take 250 input))"
proof -
  have "version_mismatch (parseVersion (declared_version c json))
          (parseVersion (clarity_version c))"
    using version_check_non_nan [OF assms(2) assms(3)] assms(4) by simp
  with assms(1) show ?thesis by (rule decode_throws)
qed

lemma decode_throws_example:
  "decode (sample_env ''1.2.0'' ''1.3.0'') (Num 0) (sample_text ''1.3.0'') =
     Inl (Error (''Invalid version. Actual: 1.3.0 | Expected: 1.2.0 (+/- 1) | '' @
                 sample_text ''1.3.0''))"
proof -
  let ?c = "sample_env ''1.2.0'' ''1.3.0''"
  have d: "declared_version ?c (sample_json ''1.3.0'') = ''1.3.0''"
    by (rule sample_declared)
  have r: "clarity_version ?c = ''1.2.0''"
    by (rule sample_env_simps)
  have "version_mismatch (parseVersion ''1.3.0'') (parseVersion ''1.2.0'')"
    by (simp add: version_mismatch_def js_neq_def parse_defs)
  then have "version_mismatch (parseVersion (declared_version ?c (sample_json ''1.3.0'')))
          (parseVersion (clarity_version ?c))"
    by (simp only: d r)
  from decode_throws [OF sample_parse this, of "Num 0"] show ?thesis
    by (simp add: d r sample_text_def)
qed

text \<open>
  C4. Not every input whose declared version is incompatible with the running version
  makes \<open>decode\<close> throw: with the running version \<open>"1.2.0"\<close>, an input that declares
  \<open>"1.2.x"\<close> breaks the rule of the specification, and \<open>decode\<close> returns a payload
  with its fields populated and raises nothing.
\<close>

theorem incompatible_version_decoded:
  "JSON_parse (sample_env ''1.2.0'' ''1.2.x'') (sample_text ''1.2.x'') =
     Some (sample_json ''1.2.x'') \<and>
   declared_version (sample_env ''1.2.0'' ''1.2.x'') (sample_json ''1.2.x'') = ''1.2.x'' \<and>
   clarity_version (sample_env ''1.2.0'' ''1.2.x'') = ''1.2.0'' \<and>
   \<not> isCompatible_spec (parseVersion ''1.2.x'') (parseVersion ''1.2.0'') \<and>
   (\<exists>r. decode (sample_env ''1.2.0'' ''1.2.x'') (Num 0) (sample_text ''1.2.x'') = Inr r \<and>
        buckets (payload r) pointer_bucket = Some [Ev [TNumber (Num 10), TNumber (Num 10)]] \<and>
        buckets (payload r) dom_bucket = Some [Ev [TNumber (Num 10), TNumber (Num 30)]])"
proof -
  let ?c = "sample_env ''1.2.0'' ''1.2.x''"
  let ?j = "sample_json ''1.2.x''"
  let ?r = "foldl (step ?c (length (sample_text ''1.2.x''))) (initial ?c (Num 0) ?j) (encoded ?j)"
  have d: "declared_version ?c ?j = ''1.2.x''"
    by (rule sample_declared)
  have v: "clarity_version ?c = ''1.2.0''"
    by (rule sample_env_simps)
  have i: "\<not> isCompatible_spec (parseVersion ''1.2.x'') (parseVersion ''1.2.0'')"
    by (simp add: isCompatible_spec_def parse_defs)
  have "\<not> version_mismatch (parseVersion ''1.2.x'') (parseVersion ''1.2.0'')"
    by (simp add: version_mismatch_def js_neq_def parse_defs)
  then have "\<not> version_mismatch (parseVersion (declared_version ?c ?j))
                 (parseVersion (clarity_version ?c))"
    unfolding d v .
  from decode_Inr [OF sample_parse this, of "Num 0"]
  have r: "decode ?c (Num 0) (sample_text ''1.2.x'') = Inr ?r" .
  have b: "buckets (payload ?r) pointer_bucket = Some [Ev [TNumber (Num 10), TNumber (Num 10)]]"
    "buckets (payload ?r) dom_bucket = Some [Ev [TNumber (Num 10), TNumber (Num 30)]]"
    by (simp_all add: buckets_foldl values_for_def elements_def initial_def sample_emitted
        sample_env_simps)
  have "\<exists>r. decode ?c (Num 0) (sample_text ''1.2.x'') = Inr r \<and>
        buckets (payload r) pointer_bucket = Some [Ev [TNumber (Num 10), TNumber (Num 10)]] \<and>
        buckets (payload r) dom_bucket = Some [Ev [TNumber (Num 10), TNumber (Num 30)]]"
    by (rule exI [of _ ?r]) (intro conjI r b)
  then show ?thesis
    by (intro conjI sample_parse d v i)
qed

theorem incompatible_version_decoded_witness:
  "\<exists>r. decode (sample_env ''1.2.0'' ''1.2.x'') (Num 0) (sample_text ''1.2.x'') = Inr r \<and>
       buckets (payload r) pointer_bucket = Some [Ev [TNumber (Num 10), TNumber (Num 10)]] \<and>
       buckets (payload r) dom_bucket = Some [Ev [TNumber (Num 10), TNumber (Num 30)]]"
  by (rule incompatible_version_decoded
      [THEN conjunct2, THEN conjunct2, THEN conjunct2, THEN conjunct2])

text \<open>
  C5. For every input that parses and passes the version check, \<open>decode\<close> returns a
  payload, whatever codes its entries carry. An entry that reaches no \<open>case\<close> changes
  nothing but the console, which gets the entry: the console holds exactly these entries,
  in order, and the payload is the one that the run without them builds.
\<close>

theorem unhandled_code_skipped:
  assumes "JSON_parse c input = Some json"
    and "\<not> version_mismatch (parseVersion (declared_version c json))
             (parseVersion (clarity_version c))"
  shows "\<exists>r. decode c now input = Inr r \<and>
             console r = filter (\<lambda>x. switch c x = None) (encoded json) \<and>
             payload r = payload (foldl (step c (length input)) (initial c now json)
                                    (filter (\<lambda>x. switch c x \<noteq> None) (encoded json))) \<and>
             (\<forall>s x. switch c x = None \<longrightarrow>
                    step c (length input) s x = s\<lparr>console := console s @ [x]\<rparr>)"
proof -
  let ?r = "foldl (step c (length input)) (initial c now json) (encoded json)"
  have d: "decode c now input = Inr ?r"
    using assms by (rule decode_Inr)
  have k: "console ?r = filter (\<lambda>x. switch c x = None) (encoded json)"
    by (simp add: console_foldl initial_def)
  have p: "payload ?r = payload (foldl (step c (length input)) (initial c now json)
                                    (filter (\<lambda>x. switch c x \<noteq> None) (encoded json)))"
    by (rule foldl_step_filter [THEN conjunct1])
  have u: "\<forall>s x. switch c x = None \<longrightarrow>
                    step c (length input) s x = s\<lparr>console := console s @ [x]\<rparr>"
    by (simp add: step_unhandled)
  show ?thesis
    by (rule exI [of _ ?r]) (intro conjI d k p u)
qed

theorem unhandled_code_skipped_witness:
  "\<exists>r. decode (sample_env ''1.2.3'' ''1.2.4'') (Num 0) (sample_text ''1.2.4'') = Inr r \<and>
       console r = [[TNumber (Num 30), TNumber (Num 99)]] \<and>
       buckets (payload r) pointer_bucket = Some [Ev [TNumber (Num 10), TNumber (Num 10)]] \<and>
       buckets (payload r) baseline_bucket = None"
proof -
  let ?c = "sample_env ''1.2.3'' ''1.2.4''"
  obtain r where r: "decode ?c (Num 0) (sample_text ''1.2.4'') = Inr r"
    and k: "console r = filter (\<lambda>x. switch ?c x = None) (encoded (sample_json ''1.2.4''))"
    using unhandled_code_skipped [OF sample_parse sample_compatible, of "Num 0"] by auto
  have "r = foldl (step ?c 69) (initial ?c (Num 0) (sample_json ''1.2.4''))
              (encoded (sample_json ''1.2.4''))"
    using r by (simp add: sample_decode)
  then have b: "buckets (payload r) pointer_bucket = Some [Ev [TNumber (Num 10), TNumber (Num 10)]]"
    "buckets (payload r) baseline_bucket = None"
    by (simp_all add: buckets_foldl values_for_def elements_def initial_def sample_emitted
        sample_env_simps)
  have "console r = [[TNumber (Num 30), TNumber (Num 99)]]"
    using k by (simp only: sample_unhandled)
  then show ?thesis
    by (intro exI [of _ r] conjI r b)
qed

text \<open>
  C6. In every payload that \<open>decode\<close> returns, every event of the metric field is a
  metric event whose \<open>TotalBytes\<close> is the length of the input string of that call,
  whatever the metric decoder had put there; so all metric events of a payload carry the
  same \<open>TotalBytes\<close>.
\<close>

theorem metric_total_bytes:
  assumes "decode c now input = Inr r" and "buckets (payload r) metric_bucket = Some vs"
  shows "list_all (total_bytes_is (length input)) vs"
proof (cases "JSON_parse c input")
  case None
  then show ?thesis using assms(1) by (simp add: decode_def)
next
  case (Some json)
  then have "r = foldl (step c (length input)) (initial c now json) (encoded json)"
    using assms(1) by (simp add: decode_Inr_iff)
  then have "vs = values_for metric_bucket
                    (emitted c (length input) (layout_reset c) (encoded json))"
    using assms(2) by (simp add: buckets_foldl initial_def elements_def split: if_splits)
  then show ?thesis
    by (simp add: values_for_metric)
qed

theorem metric_total_bytes_witness:
  "\<exists>r m1 m2. decode (sample_env ''1.2.3'' ''1.2.4'') (Num 0) (sample_text ''1.2.4'') = Inr r \<and>
     length (sample_text ''1.2.4'') = 69 \<and>
     buckets (payload r) metric_bucket = Some [MetricEv m1, MetricEv m2] \<and>
     data m1 TotalBytes = Some (Num 69) \<and> data m2 TotalBytes = Some (Num 69)"
proof -
  let ?c = "sample_env ''1.2.3'' ''1.2.4''"
  let ?r = "foldl (step ?c 69) (initial ?c (Num 0) (sample_json ''1.2.4''))
              (encoded (sample_json ''1.2.4''))"
  let ?m1 = "\<lparr>partial = [TNumber (Num 10), TNumber (Num 4)],
              data = (Map.empty(TotalBytes \<mapsto> Num (of_nat 69)) :: MetricData)\<rparr>"
  let ?m2 = "\<lparr>partial = [TNumber (Num 20), TNumber (Num 4)],
              data = (Map.empty(TotalBytes \<mapsto> Num (of_nat 69)) :: MetricData)\<rparr>"
  have d: "decode ?c (Num 0) (sample_text ''1.2.4'') = Inr ?r"
    by (rule sample_decode)
  have b: "buckets (payload ?r) metric_bucket = Some [MetricEv ?m1, MetricEv ?m2]"
    by (simp add: buckets_foldl values_for_def elements_def initial_def sample_emitted
        sample_env_simps)
  have "list_all (total_bytes_is (length (sample_text ''1.2.4''))) [MetricEv ?m1, MetricEv ?m2]"
    using metric_total_bytes [OF d b] .
  then have m: "data ?m1 TotalBytes = Some (Num 69)" "data ?m2 TotalBytes = Some (Num 69)"
    by (simp_all add: total_bytes_is_def sample_length)
  show ?thesis
    by (rule exI [of _ ?r], rule exI [of _ ?m1], rule exI [of _ ?m2])
      (intro conjI d b m sample_length)
qed

text \<open>
  C7, as amended. Nine cases write the pointer field, the four mouse cases, the
  double click and the four touch cases, and where the events have distinct numbers
  these are nine distinct codes. An entry that carries one of them is decoded by the
  interaction decoder and pushed to the pointer field. The cases that write the dom
  field are \<open>Discover\<close> and \<open>Mutation\<close>, and an entry with either code is decoded by the
  layout decoder and pushed to the dom field.
\<close>

theorem pointer_and_dom_cases:
  assumes "distinct (map (event_code c) cases)"
  shows "length pointer_cases = 9 \<and> distinct (map (event_code c) pointer_cases) \<and>
         (buckets (payload (handle c n ev x s)) pointer_bucket \<noteq> buckets (payload s) pointer_bucket)
           = (ev \<in> set pointer_cases) \<and>
         (ev \<in> set pointer_cases \<and> is_case c x ev \<longrightarrow>
            step c n s x = push pointer_bucket (Ev (interaction_decode c x)) s) \<and>
         (buckets (payload (handle c n ev x s)) dom_bucket \<noteq> buckets (payload s) dom_bucket)
           = (ev = Discover \<or> ev = Mutation) \<and>
         ((ev = Discover \<or> ev = Mutation) \<and> is_case c x ev \<longrightarrow>
            step c n s x = push_layout c dom_bucket x s)"
proof -
  have l: "length pointer_cases = 9"
    by (simp add: pointer_cases_def)
  have "distinct (map (event_code c) (take 10 cases @ pointer_cases @ drop 19 cases))"
    using assms by (simp only: pointer_cases_in_cases [symmetric])
  then have d: "distinct (map (event_code c) pointer_cases)"
    by simp
  have p: "(buckets (payload (handle c n ev x s)) pointer_bucket \<noteq> buckets (payload s) pointer_bucket)
           = (ev \<in> set pointer_cases)"
    by (simp only: handle_changes bucket_of_pointer)
  have sp: "ev \<in> set pointer_cases \<and> is_case c x ev \<longrightarrow>
            step c n s x = push pointer_bucket (Ev (interaction_decode c x)) s"
    using switch_code [OF assms, of x ev] by (simp add: step_def handle_pointer)
  have m: "(buckets (payload (handle c n ev x s)) dom_bucket \<noteq> buckets (payload s) dom_bucket)
           = (ev = Discover \<or> ev = Mutation)"
    by (simp only: handle_changes bucket_of_dom)
  have sm: "(ev = Discover \<or> ev = Mutation) \<and> is_case c x ev \<longrightarrow>
            step c n s x = push_layout c dom_bucket x s"
    using switch_code [OF assms, of x ev] by (auto simp: step_def)
  show ?thesis
    by (intro conjI l d p sp m sm)
qed

theorem pointer_and_dom_cases_witness:
  "distinct (map (event_code (sample_env [] [])) cases) \<and>
   TouchMove \<in> set pointer_cases \<and>
   is_case (sample_env [] []) [TNumber (Num 5), TNumber (Num 18)] TouchMove \<and>
   step (sample_env [] []) 0 (initial (sample_env [] []) (Num 0) (sample_json []))
        [TNumber (Num 5), TNumber (Num 18)]
     = push pointer_bucket (Ev [TNumber (Num 5), TNumber (Num 18)])
         (initial (sample_env [] []) (Num 0) (sample_json []))"
proof -
  let ?c = "sample_env [] []"
  let ?x = "[TNumber (Num 5), TNumber (Num 18)]"
  let ?s = "initial ?c (Num 0) (sample_json [])"
  have i: "is_case ?c ?x TouchMove"
    by (simp add: is_case_def sample_env_simps sample_code_def cases_def)
  have t: "TouchMove \<in> set pointer_cases"
    by (simp add: pointer_cases_def)
  have "TouchMove \<in> set pointer_cases \<and> is_case ?c ?x TouchMove \<longrightarrow>
        step ?c 0 ?s ?x = push pointer_bucket (Ev (interaction_decode ?c ?x)) ?s"
    using pointer_and_dom_cases [OF sample_distinct, of "[]" "[]" 0 TouchMove ?x ?s]
    by (elim conjE)
  then have "step ?c 0 ?s ?x = push pointer_bucket (Ev ?x) ?s"
    using i t by (simp add: sample_env_simps)
  then show ?thesis
    by (intro conjI sample_distinct i t)
qed

text \<open>The cases that create the pointer field on a payload without fields are nine,
  not eight.\<close>

theorem pointer_cases_counterexample:
  "cases_for (sample_env [] []) pointer_bucket =
     [MouseDown, MouseUp, MouseMove, MouseWheel, DoubleClick,
      TouchStart, TouchCancel, TouchEnd, TouchMove] \<and>
   length (cases_for (sample_env [] []) pointer_bucket) \<noteq> 8"
  by (simp add: cases_for_def cases_def handle_push buckets_push initial_def)



text \<open>
  C9, as amended. The result of \<open>decode\<close> is a function of the input, the running
  version, what the decoders return and the value of \<open>Date.now()\<close>, which it stores in
  the payload: two runs on one input give the same error, or payloads, layout states and
  console output that differ in the timestamp alone.
\<close>

theorem decode_up_to_timestamp:
  fixes c :: "('d, 'l) env"
  shows "decode c t' input = map_sum id (at_time t') (decode c t input)"
  by (rule decode_at_time)

theorem decode_up_to_timestamp_witness:
  "decode (sample_env ''1.2.3'' ''1.2.4'') (Num 1) (sample_text ''1.2.4'') =
   map_sum id (at_time (Num 1))
     (decode (sample_env ''1.2.3'' ''1.2.4'') (Num 0) (sample_text ''1.2.4''))"
  by (rule decode_up_to_timestamp)

text \<open>Two runs on the same input at different times return different payloads.\<close>

theorem decode_timestamp_counterexample:
  "decode (sample_env ''1.2.3'' ''1.2.4'') (Num 0) (sample_text ''1.2.4'') \<noteq>
   decode (sample_env ''1.2.3'' ''1.2.4'') (Num 1) (sample_text ''1.2.4'')"
proof
  let ?c = "sample_env ''1.2.3'' ''1.2.4''"
  let ?r = "\<lambda>t. foldl (step ?c 69) (initial ?c t (sample_json ''1.2.4''))
                   (encoded (sample_json ''1.2.4''))"
  assume "decode ?c (Num 0) (sample_text ''1.2.4'') = decode ?c (Num 1) (sample_text ''1.2.4'')"
  then have "?r (Num 0) = ?r (Num 1)"
    by (simp only: sample_decode sum.inject)
  then have "timestamp (payload (?r (Num 0))) = timestamp (payload (?r (Num 1)))"
    by (rule arg_cong)
  then show False
    by (simp add: timestamp_foldl initial_def)
qed

text \<open>
  C10. A version with three parts whose patch is not a number parses to a version
  with \<open>NaN\<close> as its patch, and the check does not reject it: \<open>"1.2.x"\<close> passes the
  check against \<open>"1.2.0"\<close>, \<open>"0.0.x"\<close> passes it against \<open>"0.0.0"\<close>, and with the
  running version \<open>"1.2.0"\<close> \<open>decode\<close> returns a payload for an input that declares
  \<open>"1.2.x"\<close>.
\<close>

theorem nan_patch_accepted:
  "patch (parseVersion ''1.2.x'') = NaN \<and>
   \<not> version_mismatch (parseVersion ''1.2.x'') (parseVersion ''1.2.0'') \<and>
   \<not> version_mismatch (parseVersion ''0.0.x'') (parseVersion ''0.0.0'') \<and>
   \<not> isl (decode (sample_env ''1.2.0'' ''1.2.x'') (Num 0) (sample_text ''1.2.x''))"
proof -
  have p: "patch (parseVersion ''1.2.x'') = NaN"
    by (simp add: parse_defs)
  have m: "\<not> version_mismatch (parseVersion ''1.2.x'') (parseVersion ''1.2.0'')"
    by (simp add: version_mismatch_def js_neq_def parse_defs)
  have z: "\<not> version_mismatch (parseVersion ''0.0.x'') (parseVersion ''0.0.0'')"
    by (simp add: version_mismatch_def js_neq_def parse_defs)
  have "\<not> version_mismatch
            (parseVersion (declared_version (sample_env ''1.2.0'' ''1.2.x'') (sample_json ''1.2.x'')))
            (parseVersion (clarity_version (sample_env ''1.2.0'' ''1.2.x'')))"
    unfolding sample_declared sample_env_simps by (rule m)
  from decode_Inr [OF sample_parse this, of "Num 0"]
  have d: "\<not> isl (decode (sample_env ''1.2.0'' ''1.2.x'') (Num 0) (sample_text ''1.2.x''))"
    by simp
  show ?thesis
    by (intro conjI p m z d)
qed

theorem nan_patch_accepted_witness:
  "\<not> isl (decode (sample_env ''1.2.0'' ''1.2.x'') (Num 0) (sample_text ''1.2.x''))"
  by (rule nan_patch_accepted [THEN conjunct2, THEN conjunct2, THEN conjunct2])

end
